theory Spec2Isabelle
  imports Main
begin

section \<open>Python values\<close>

text \<open>
  A Python \<open>str\<close> is a sequence of Unicode code points, so it is modelled as a list of
  natural numbers. ASCII literals of the source are written through \<open>ascii\<close>.
\<close>

type_synonym pystr = "nat list"

definition ascii :: "string \<Rightarrow> pystr" where
  "ascii s = map of_char s"

text \<open>
  The values a candidate dictionary carries: \<open>None\<close>, a string, or a \<open>datetime\<close>
  (microseconds since 0001-01-01T00:00:00, the smallest \<open>datetime\<close>).
\<close>

datatype pyval = PNone | PStr pystr | PTime int

text \<open>Truth value of \<open>if v:\<close>: \<open>None\<close> and the empty string are false, a datetime is true.\<close>

fun truthy :: "pyval \<Rightarrow> bool" where
  "truthy PNone = False"
| "truthy (PStr s) = (s \<noteq> [])"
| "truthy (PTime t) = True"

text \<open>The test \<open>val in (None, "")\<close> of both merge loops.\<close>

definition blank :: "pyval \<Rightarrow> bool" where
  "blank v = (v = PNone \<or> v = PStr [])"

text \<open>\<open>a or b\<close> on values.\<close>

definition py_or :: "pyval \<Rightarrow> pyval \<Rightarrow> pyval" where
  "py_or a b = (if truthy a then a else b)"

type_synonym pydict = "string \<rightharpoonup> pyval"

text \<open>\<open>d.get(k)\<close>: \<open>None\<close> for a missing key.\<close>

definition dget :: "pydict \<Rightarrow> string \<Rightarrow> pyval" where
  "dget d k = (case d k of None \<Rightarrow> PNone | Some v \<Rightarrow> v)"

text \<open>An element of \<open>items: List[Any]\<close>: a dictionary, or anything else.\<close>

datatype pyobj = Dict pydict | NotDict

datatype error = ValueError | AttributeError | OverflowError

section \<open>The Job table (app/models.py)\<close>

text \<open>
  The declared columns of \<open>class Job\<close>. The primary key is assigned by the database and
  is never read by the ingestion code; a row is identified here by its position in the
  table, which is the order in which \<open>first()\<close> sees the rows.
\<close>

record Job =
  title :: pyval
  company :: pyval
  location :: pyval
  url :: pyval
  detail_url :: pyval
  apply_url :: pyval
  category :: pyval
  source :: pyval
  posted_at :: pyval
  created_at :: pyval
  updated_at :: pyval

definition vodafone :: pystr where
  "vodafone = ascii ''vodafone''"

text \<open>
  \<open>Job(**raw)\<close>: a declared field takes the supplied value, an omitted one its declared
  default (\<open>default_factory=datetime.utcnow\<close> for the two timestamps, read as \<open>now\<close>);
  keys that are not declared fields are ignored. \<open>title\<close> has no default.
\<close>

definition field_or :: "pydict \<Rightarrow> string \<Rightarrow> pyval \<Rightarrow> pyval" where
  "field_or raw k d = (case raw k of None \<Rightarrow> d | Some v \<Rightarrow> v)"

definition Job_init :: "pydict \<Rightarrow> int \<Rightarrow> Job" where
  "Job_init raw now =
     \<lparr> title = field_or raw ''title'' PNone,
       company = field_or raw ''company'' (PStr (ascii ''Vodafone'')),
       location = field_or raw ''location'' PNone,
       url = field_or raw ''url'' PNone,
       detail_url = field_or raw ''detail_url'' PNone,
       apply_url = field_or raw ''apply_url'' PNone,
       category = field_or raw ''category'' PNone,
       source = field_or raw ''source'' (PStr vodafone),
       posted_at = field_or raw ''posted_at'' PNone,
       created_at = field_or raw ''created_at'' (PTime now),
       updated_at = field_or raw ''updated_at'' (PTime now) \<rparr>"

text \<open>
  Attribute access by name. \<open>field_of_name\<close> is the table of declared fields;
  \<open>setattr(job, name, value)\<close> on a name that is not a declared field of the model
  raises (\<open>ValueError\<close>: object has no field). \<open>save.py\<close> lets that propagate,
  \<open>vodafone.py\<close> catches it.
\<close>

datatype field = F_title | F_company | F_location | F_url | F_detail_url | F_apply_url
  | F_category | F_source | F_posted_at | F_created_at | F_updated_at

definition field_of_name :: "string \<Rightarrow> field option" where
  "field_of_name name =
     (if name = ''title'' then Some F_title
      else if name = ''company'' then Some F_company
      else if name = ''location'' then Some F_location
      else if name = ''url'' then Some F_url
      else if name = ''detail_url'' then Some F_detail_url
      else if name = ''apply_url'' then Some F_apply_url
      else if name = ''category'' then Some F_category
      else if name = ''source'' then Some F_source
      else if name = ''posted_at'' then Some F_posted_at
      else if name = ''created_at'' then Some F_created_at
      else if name = ''updated_at'' then Some F_updated_at
      else None)"

fun get_field :: "field \<Rightarrow> Job \<Rightarrow> pyval" where
  "get_field F_title j = title j"
| "get_field F_company j = company j"
| "get_field F_location j = location j"
| "get_field F_url j = url j"
| "get_field F_detail_url j = detail_url j"
| "get_field F_apply_url j = apply_url j"
| "get_field F_category j = category j"
| "get_field F_source j = source j"
| "get_field F_posted_at j = posted_at j"
| "get_field F_created_at j = created_at j"
| "get_field F_updated_at j = updated_at j"

fun set_field :: "field \<Rightarrow> pyval \<Rightarrow> Job \<Rightarrow> Job" where
  "set_field F_title v j = j\<lparr>title := v\<rparr>"
| "set_field F_company v j = j\<lparr>company := v\<rparr>"
| "set_field F_location v j = j\<lparr>location := v\<rparr>"
| "set_field F_url v j = j\<lparr>url := v\<rparr>"
| "set_field F_detail_url v j = j\<lparr>detail_url := v\<rparr>"
| "set_field F_apply_url v j = j\<lparr>apply_url := v\<rparr>"
| "set_field F_category v j = j\<lparr>category := v\<rparr>"
| "set_field F_source v j = j\<lparr>source := v\<rparr>"
| "set_field F_posted_at v j = j\<lparr>posted_at := v\<rparr>"
| "set_field F_created_at v j = j\<lparr>created_at := v\<rparr>"
| "set_field F_updated_at v j = j\<lparr>updated_at := v\<rparr>"

definition setattr :: "Job \<Rightarrow> string \<Rightarrow> pyval \<Rightarrow> error + Job" where
  "setattr j name v =
     (case field_of_name name of None \<Rightarrow> Inl ValueError | Some f \<Rightarrow> Inr (set_field f v j))"

definition getattr :: "Job \<Rightarrow> string \<Rightarrow> error + pyval" where
  "getattr j name =
     (case field_of_name name of None \<Rightarrow> Inl AttributeError | Some f \<Rightarrow> Inr (get_field f j))"

section \<open>The session\<close>

text \<open>
  \<open>app/db.py\<close> builds every session with \<open>autoflush=False\<close>, and neither save path
  flushes before its final \<open>commit()\<close>. During one run a \<open>select\<close> therefore reads the
  rows as they were committed before the run (\<open>rows\<close>), while the objects it returns
  are the session's own, carrying the attribute writes made so far in the run (\<open>objs\<close>,
  one per row); objects passed to \<open>add\<close> wait in \<open>pending\<close> and are invisible to the
  queries. \<open>commit()\<close> writes the objects back and appends the pending ones.
\<close>

fun first_index :: "('a \<Rightarrow> bool) \<Rightarrow> 'a list \<Rightarrow> nat option" where
  "first_index P [] = None"
| "first_index P (x # xs) = (if P x then Some 0 else map_option Suc (first_index P xs))"

section \<open>app/services/scraper/save.py\<close>

text \<open>
  \<open>select(Job).where(col == val)\<close>, narrowed by \<open>.where(Job.source == source)\<close> when the
  candidate's source is truthy, then \<open>.first()\<close>: the position of the first matching row.
\<close>

definition select_first :: "Job list \<Rightarrow> (Job \<Rightarrow> pyval) \<Rightarrow> pyval \<Rightarrow> pyval \<Rightarrow> nat option" where
  "select_first rows col val src =
     first_index (\<lambda>j. col j = val \<and> (truthy src \<longrightarrow> source j = src)) rows"

definition find_existing_job :: "Job list \<Rightarrow> pydict \<Rightarrow> nat option" where
  "find_existing_job rows item =
     (let src = dget item ''source'';
          detail = dget item ''detail_url'';
          apply = dget item ''apply_url'';
          legacy_url = dget item ''url''
      in case (if truthy detail then select_first rows detail_url detail src else None) of
           Some found \<Rightarrow> Some found
         | None \<Rightarrow>
        (case (if truthy apply then select_first rows apply_url apply src else None) of
           Some found \<Rightarrow> Some found
         | None \<Rightarrow>
        (case (if truthy legacy_url then select_first rows url legacy_url src else None) of
           Some found \<Rightarrow> Some found
         | None \<Rightarrow> None)))"

definition updatable :: "string list" where
  "updatable = [''title'', ''company'', ''location'', ''description'', ''detail_url'',
                ''apply_url'', ''url'', ''source'', ''category'', ''posted_at'']"

fun update_fields_loop :: "string list \<Rightarrow> Job \<Rightarrow> pydict \<Rightarrow> error + Job" where
  "update_fields_loop [] dest src = Inr dest"
| "update_fields_loop (key # keys) dest src =
     (let val = dget src key
      in if \<not> blank val
         then (case setattr dest key val of
                 Inl e \<Rightarrow> Inl e
               | Inr dest' \<Rightarrow> update_fields_loop keys dest' src)
         else update_fields_loop keys dest src)"

definition update_job_fields :: "Job \<Rightarrow> pydict \<Rightarrow> error + Job" where
  "update_job_fields dest src = update_fields_loop updatable dest src"

text \<open>
  The two tests at the head of the loop body of \<open>save_jobs\<close>: a candidate without a
  truthy \<open>source\<close> gets \<open>raw["source"] = "vodafone"\<close>, and a candidate needs one of the
  three links to identify the record.
\<close>

definition ensure_source :: "pydict \<Rightarrow> pydict" where
  "ensure_source raw =
     (if \<not> truthy (dget raw ''source'') then raw(''source'' \<mapsto> PStr vodafone) else raw)"

definition has_identity :: "pydict \<Rightarrow> bool" where
  "has_identity raw =
     (truthy (dget raw ''detail_url'') \<or> truthy (dget raw ''apply_url'')
      \<or> truthy (dget raw ''url''))"

text \<open>
  The loop of \<open>save_jobs\<close> over the items. The state is the session's objects, its
  pending list and the counter \<open>affected\<close>; \<open>rows\<close> is what the queries read.
\<close>

fun save_loop :: "pyobj list \<Rightarrow> int \<Rightarrow> Job list \<Rightarrow> Job list \<times> Job list \<times> nat
                    \<Rightarrow> error + (Job list \<times> Job list \<times> nat)" where
  "save_loop [] now rows st = Inr st"
| "save_loop (NotDict # items) now rows st = save_loop items now rows st"
| "save_loop (Dict raw0 # items) now rows (objs, pending, affected) =
     (let raw = ensure_source raw0
      in if \<not> has_identity raw
         then save_loop items now rows (objs, pending, affected)
         else (case find_existing_job rows raw of
                 Some i \<Rightarrow>
                   (case update_job_fields (objs ! i) raw of
                      Inl e \<Rightarrow> Inl e
                    | Inr job \<Rightarrow> save_loop items now rows (objs[i := job], pending, affected + 1))
               | None \<Rightarrow>
                   save_loop items now rows (objs, pending @ [Job_init raw now], affected + 1)))"

text \<open>
  \<open>save_jobs(items, session)\<close> returns the number of affected records together with the
  committed table, or the exception that left the loop before \<open>commit()\<close>.
\<close>

definition save_jobs :: "pyobj list \<Rightarrow> int \<Rightarrow> Job list \<Rightarrow> error + (nat \<times> Job list)" where
  "save_jobs items now rows =
     (if items = [] then Inr (0, rows)
      else case save_loop items now rows (rows, [], 0) of
             Inl e \<Rightarrow> Inl e
           | Inr (objs, pending, affected) \<Rightarrow> Inr (affected, objs @ pending))"

text \<open>The table after a call: an exception leaves the session uncommitted.\<close>

definition committed :: "Job list \<Rightarrow> error + (nat \<times> Job list) \<Rightarrow> Job list" where
  "committed rows r = (case r of Inl e \<Rightarrow> rows | Inr (n, rows') \<Rightarrow> rows')"

section \<open>app/services/scraper/vodafone.py: save\_jobs\_bulk\<close>

definition NA :: pystr where
  "NA = ascii ''N/A''"

text \<open>The Vodafone path queries without a source filter.\<close>

definition vf_select_first :: "Job list \<Rightarrow> (Job \<Rightarrow> pyval) \<Rightarrow> pyval \<Rightarrow> nat option" where
  "vf_select_first rows col val = first_index (\<lambda>j. col j = val) rows"

definition vf_find :: "Job list \<Rightarrow> pydict \<Rightarrow> nat option" where
  "vf_find rows it =
     (let detail = dget it ''detail_url'';
          apply = py_or (dget it ''apply_url'') (dget it ''url'');
          exists1 = (if truthy detail then vf_select_first rows detail_url detail else None);
          exists2 = (if exists1 = None \<and> truthy apply
                     then vf_select_first rows apply_url apply else exists1);
          exists3 = (if exists2 = None \<and> truthy (dget it ''url'')
                     then vf_select_first rows url (dget it ''url'') else exists2)
      in exists3)"

definition vf_keys :: "string list" where
  "vf_keys = [''company'', ''location'', ''apply_url'', ''detail_url'', ''category'',
              ''source'', ''employment_type'', ''posted_at'', ''description'']"

text \<open>The inner loop: an exception of \<open>setattr\<close> is caught and the key passed over.\<close>

fun vf_update_loop :: "string list \<Rightarrow> Job \<Rightarrow> pydict \<Rightarrow> Job" where
  "vf_update_loop [] exists it = exists"
| "vf_update_loop (key # keys) exists it =
     (let val = dget it key
      in if \<not> blank val
         then (case setattr exists key val of
                 Inl e \<Rightarrow> vf_update_loop keys exists it
               | Inr exists' \<Rightarrow> vf_update_loop keys exists' it)
         else vf_update_loop keys exists it)"

definition vf_merge :: "Job \<Rightarrow> pydict \<Rightarrow> Job" where
  "vf_merge exists it =
     (let new_title = dget it ''title'';
          exists' = (if truthy new_title \<and> new_title \<noteq> PStr NA
                        \<and> (\<not> truthy (title exists) \<or> title exists = PStr NA)
                     then exists\<lparr>title := new_title\<rparr> else exists)
      in vf_update_loop vf_keys exists' it)"

text \<open>
  \<open>_filter_job_dict\<close> keeps the keys that are fields of the model; \<open>Job(**payload)\<close>
  then reads exactly those, so the new object is \<open>Job_init\<close> of the item.
\<close>

definition job_model_keys :: "string list" where
  "job_model_keys = [''id'', ''title'', ''company'', ''location'', ''url'', ''detail_url'',
                     ''apply_url'', ''category'', ''source'', ''posted_at'', ''created_at'',
                     ''updated_at'']"

definition filter_job_dict :: "pydict \<Rightarrow> pydict" where
  "filter_job_dict d = (\<lambda>k. if k \<in> set job_model_keys then d k else None)"

fun vf_save_loop :: "pydict list \<Rightarrow> int \<Rightarrow> Job list \<Rightarrow> Job list \<times> Job list \<times> nat
                       \<Rightarrow> Job list \<times> Job list \<times> nat" where
  "vf_save_loop [] now rows st = st"
| "vf_save_loop (it # items) now rows (objs, pending, saved) =
     (case vf_find rows it of
        Some i \<Rightarrow> vf_save_loop items now rows (objs[i := vf_merge (objs ! i) it], pending, saved + 1)
      | None \<Rightarrow>
          vf_save_loop items now rows
            (objs, pending @ [Job_init (filter_job_dict it) now], saved + 1))"

definition vodafone_save_jobs_bulk :: "pydict list \<Rightarrow> int \<Rightarrow> Job list \<Rightarrow> nat \<times> Job list" where
  "vodafone_save_jobs_bulk items now rows =
     (case vf_save_loop items now rows (rows, [], 0) of
        (objs, pending, saved) \<Rightarrow> (saved, objs @ pending))"

section \<open>Example data\<close>

definition ex_job :: Job where
  "ex_job = \<lparr> title = PStr (ascii ''Analyst''), company = PStr (ascii ''Vodafone''),
      location = PStr (ascii ''Cairo''), url = PNone, detail_url = PStr (ascii ''d1''),
      apply_url = PStr (ascii ''a1''), category = PNone, source = PStr vodafone,
      posted_at = PNone, created_at = PTime 5, updated_at = PTime 5 \<rparr>"

definition ex_item :: pydict where
  "ex_item = [''detail_url'' \<mapsto> PStr (ascii ''d1''), ''location'' \<mapsto> PStr [],
              ''title'' \<mapsto> PStr (ascii ''Senior'')]"

section \<open>Attribute access and the merge loops\<close>

lemma blank_not_truthy: "blank v \<Longrightarrow> \<not> truthy v"
  by (auto simp: blank_def)

lemma field_of_name_inj:
  "field_of_name n = Some f \<Longrightarrow> field_of_name m = Some f \<Longrightarrow> n = m"
  unfolding field_of_name_def by (cases f) (simp_all split: if_splits)

lemma get_set_other: "f \<noteq> g \<Longrightarrow> get_field g (set_field f v j) = get_field g j"
  by (cases f; cases g; simp)

lemma setattr_other:
  assumes "setattr j k v = Inr j'" and "k \<noteq> name"
  shows "getattr j' name = getattr j name"
proof (cases "field_of_name name")
  case None
  then show ?thesis by (simp add: getattr_def)
next
  case (Some g)
  from assms(1) obtain f where f: "field_of_name k = Some f" and j': "j' = set_field f v j"
    by (auto simp: setattr_def split: option.splits)
  from f Some assms(2) have "f \<noteq> g" using field_of_name_inj by blast
  with Some j' show ?thesis by (simp add: getattr_def get_set_other)
qed

lemma update_fields_loop_frame:
  "update_fields_loop keys dest src = Inr dest' \<Longrightarrow> name \<notin> set keys \<or> blank (dget src name)
     \<Longrightarrow> getattr dest' name = getattr dest name"
proof (induction keys arbitrary: dest)
  case Nil
  then show ?case by simp
next
  case (Cons key keys)
  show ?case
  proof (cases "blank (dget src key)")
    case True
    with Cons.prems have "update_fields_loop keys dest src = Inr dest'" by simp
    moreover from Cons.prems(2) have "name \<notin> set keys \<or> blank (dget src name)" by auto
    ultimately show ?thesis by (rule Cons.IH)
  next
    case False
    with Cons.prems(1) obtain d where d: "setattr dest key (dget src key) = Inr d"
      and rest: "update_fields_loop keys d src = Inr dest'"
      by (auto split: sum.splits)
    from False Cons.prems(2) have ne: "key \<noteq> name" by auto
    from Cons.prems(2) have "name \<notin> set keys \<or> blank (dget src name)" by auto
    with rest have "getattr dest' name = getattr d name" by (rule Cons.IH)
    also from d ne have "\<dots> = getattr dest name" by (rule setattr_other)
    finally show ?thesis .
  qed
qed

lemma vf_update_loop_frame:
  "name \<notin> set keys \<or> blank (dget it name)
     \<Longrightarrow> getattr (vf_update_loop keys dest it) name = getattr dest name"
proof (induction keys arbitrary: dest)
  case Nil
  then show ?case by simp
next
  case (Cons key keys)
  from Cons.prems have tl: "name \<notin> set keys \<or> blank (dget it name)" by auto
  show ?case
  proof (cases "blank (dget it key)")
    case True
    with Cons.IH [OF tl] show ?thesis by simp
  next
    case False
    with Cons.prems have ne: "key \<noteq> name" by auto
    show ?thesis
    proof (cases "setattr dest key (dget it key)")
      case (Inl e)
      with False Cons.IH [OF tl] show ?thesis by simp
    next
      case (Inr d)
      with False have "getattr (vf_update_loop (key # keys) dest it) name
          = getattr (vf_update_loop keys d it) name" by simp
      also have "\<dots> = getattr d name" by (rule Cons.IH [OF tl])
      also from Inr ne have "\<dots> = getattr dest name" by (rule setattr_other)
      finally show ?thesis .
    qed
  qed
qed

lemma getattr_title_update: "name \<noteq> ''title'' \<Longrightarrow> getattr (j\<lparr>title := v\<rparr>) name = getattr j name"
  using setattr_other [of j "''title''" v "j\<lparr>title := v\<rparr>" name]
  by (simp add: setattr_def field_of_name_def)

lemma vf_merge_frame:
  assumes "(name \<notin> set vf_keys \<and> name \<noteq> ''title'') \<or> blank (dget it name)"
  shows "getattr (vf_merge dest it) name = getattr dest name"
proof -
  from assms have k: "name \<notin> set vf_keys \<or> blank (dget it name)" by auto
  let ?c = "truthy (dget it ''title'') \<and> dget it ''title'' \<noteq> PStr NA
              \<and> (\<not> truthy (title dest) \<or> title dest = PStr NA)"
  let ?d = "if ?c then dest\<lparr>title := dget it ''title''\<rparr> else dest"
  have "getattr (vf_merge dest it) name = getattr ?d name"
    unfolding vf_merge_def Let_def by (rule vf_update_loop_frame [OF k])
  also have "\<dots> = getattr dest name"
  proof (cases ?c)
    case False
    then show ?thesis by (simp only: if_False)
  next
    case True
    then have "truthy (dget it ''title'')" by simp
    with assms blank_not_truthy have "name \<noteq> ''title''" by blast
    with True show ?thesis by (simp add: getattr_title_update)
  qed
  finally show ?thesis .
qed

lemma map_update_same: "f y = f (xs ! i) \<Longrightarrow> map f (xs[i := y]) = map f xs"
  by (cases "i < length xs") (simp_all add: map_update list_update_same_conv list_update_beyond)

text \<open>
  C4. Merging never overwrites with an empty value: when the candidate's value under a
  name is \<open>None\<close> or the empty string, the record's attribute of that name is the same
  after the merge as before, in the merge of \<open>save.py\<close> and in that of \<open>vodafone.py\<close>.
  In particular a non-empty \<open>location\<close> survives a candidate whose \<open>location\<close> is empty.
\<close>

theorem merge_keeps_field_on_blank:
  assumes "blank (dget src name)"
  shows "(\<forall>dest'. update_job_fields dest src = Inr dest' \<longrightarrow> getattr dest' name = getattr dest name)
         \<and> getattr (vf_merge dest src) name = getattr dest name"
  using assms update_fields_loop_frame [of updatable dest src _ name] vf_merge_frame [of name src dest]
  by (auto simp: update_job_fields_def)

lemma ex_item_eval:
  "dget ex_item ''title'' = PStr (ascii ''Senior'')"
  "dget ex_item ''company'' = PNone"
  "dget ex_item ''location'' = PStr []"
  "dget ex_item ''description'' = PNone"
  "dget ex_item ''detail_url'' = PStr (ascii ''d1'')"
  "dget ex_item ''apply_url'' = PNone"
  "dget ex_item ''url'' = PNone"
  "dget ex_item ''source'' = PNone"
  "dget ex_item ''category'' = PNone"
  "dget ex_item ''posted_at'' = PNone"
  "dget ex_item ''employment_type'' = PNone"
  by (simp_all add: ex_item_def dget_def)

lemma ex_update: "update_job_fields ex_job ex_item = Inr (ex_job\<lparr>title := PStr (ascii ''Senior'')\<rparr>)"
  by (simp add: update_job_fields_def updatable_def ex_item_eval blank_def ascii_def
       setattr_def field_of_name_def ex_job_def)

theorem merge_keeps_field_on_blank_witness:
  "blank (dget ex_item ''location'')
   \<and> update_job_fields ex_job ex_item = Inr (ex_job\<lparr>title := PStr (ascii ''Senior'')\<rparr>)
   \<and> getattr (ex_job\<lparr>title := PStr (ascii ''Senior'')\<rparr>) ''location'' = Inr (PStr (ascii ''Cairo''))
   \<and> getattr (vf_merge ex_job ex_item) ''location'' = Inr (PStr (ascii ''Cairo''))"
proof -
  have h: "blank (dget ex_item ''location'')" by (simp add: ex_item_eval blank_def)
  have g: "getattr ex_job ''location'' = Inr (PStr (ascii ''Cairo''))"
    by (simp add: getattr_def field_of_name_def ex_job_def)
  from merge_keeps_field_on_blank [OF h, of ex_job] ex_update g h show ?thesis by simp
qed

section \<open>What a run leaves alone\<close>

lemma getattr_fields:
  "getattr j ''created_at'' = Inr (created_at j)"
  "getattr j ''updated_at'' = Inr (updated_at j)"
  "getattr j ''title'' = Inr (title j)"
  "getattr j ''location'' = Inr (location j)"
  "getattr j ''detail_url'' = Inr (detail_url j)"
  "getattr j ''apply_url'' = Inr (apply_url j)"
  "getattr j ''url'' = Inr (url j)"
  "getattr j ''source'' = Inr (source j)"
  by (simp_all add: getattr_def field_of_name_def)

lemma save_loop_frame:
  assumes "name \<notin> set updatable"
  shows "save_loop items now rows (objs, pending, k) = Inr (objs', pending', k')
         \<Longrightarrow> length objs' = length objs
             \<and> map (\<lambda>j. getattr j name) objs' = map (\<lambda>j. getattr j name) objs"
proof (induction items arbitrary: objs pending k)
  case Nil
  then show ?case by simp
next
  case (Cons item items)
  show ?case
  proof (cases item)
    case NotDict
    with Cons.prems have "save_loop items now rows (objs, pending, k) = Inr (objs', pending', k')"
      by simp
    then show ?thesis by (rule Cons.IH)
  next
    case (Dict raw0)
    define raw where "raw = ensure_source raw0"
    show ?thesis
    proof (cases "has_identity raw")
      case False
      with Cons.prems Dict have "save_loop items now rows (objs, pending, k) = Inr (objs', pending', k')"
        by (simp add: raw_def Let_def)
      then show ?thesis by (rule Cons.IH)
    next
      case True
      show ?thesis
      proof (cases "find_existing_job rows raw")
        case None
        with True Cons.prems Dict
        have "save_loop items now rows (objs, pending @ [Job_init raw now], k + 1)
                = Inr (objs', pending', k')"
          by (simp add: raw_def Let_def)
        then show ?thesis by (rule Cons.IH)
      next
        case (Some i)
        with True Cons.prems Dict obtain job where
          job: "update_job_fields (objs ! i) raw = Inr job" and
          rest: "save_loop items now rows (objs[i := job], pending, k + 1) = Inr (objs', pending', k')"
          by (auto simp: raw_def Let_def split: sum.splits)
        have "getattr job name = getattr (objs ! i) name"
          using job assms update_fields_loop_frame [of updatable "objs ! i" raw job name]
          by (simp add: update_job_fields_def)
        then have "map (\<lambda>j. getattr j name) (objs[i := job]) = map (\<lambda>j. getattr j name) objs"
          by (rule map_update_same)
        with Cons.IH [OF rest] show ?thesis by simp
      qed
    qed
  qed
qed

lemma vf_save_loop_frame:
  assumes "name \<notin> set vf_keys" and "name \<noteq> ''title''"
  shows "vf_save_loop items now rows (objs, pending, k) = (objs', pending', k')
         \<Longrightarrow> length objs' = length objs
             \<and> map (\<lambda>j. getattr j name) objs' = map (\<lambda>j. getattr j name) objs"
proof (induction items arbitrary: objs pending k)
  case Nil
  then show ?case by simp
next
  case (Cons it items)
  show ?case
  proof (cases "vf_find rows it")
    case None
    with Cons.prems
    have "vf_save_loop items now rows (objs, pending @ [Job_init (filter_job_dict it) now], k + 1)
            = (objs', pending', k')" by simp
    then show ?thesis by (rule Cons.IH)
  next
    case (Some i)
    with Cons.prems
    have rest: "vf_save_loop items now rows (objs[i := vf_merge (objs ! i) it], pending, k + 1)
            = (objs', pending', k')" by simp
    from assms have "getattr (vf_merge (objs ! i) it) name = getattr (objs ! i) name"
      by (intro vf_merge_frame) simp
    then have "map (\<lambda>j. getattr j name) (objs[i := vf_merge (objs ! i) it])
                 = map (\<lambda>j. getattr j name) objs"
      by (rule map_update_same)
    with Cons.IH [OF rest] show ?thesis by simp
  qed
qed

lemma save_jobs_frame:
  assumes "name \<notin> set updatable" and "save_jobs items now rows = Inr (n, rows')"
  shows "map (\<lambda>j. getattr j name) (take (length rows) rows') = map (\<lambda>j. getattr j name) rows"
proof (cases "items = []")
  case True
  with assms(2) show ?thesis by (simp add: save_jobs_def)
next
  case False
  with assms(2) obtain objs pending where
    l: "save_loop items now rows (rows, [], 0) = Inr (objs, pending, n)" and r: "rows' = objs @ pending"
    by (auto simp: save_jobs_def split: sum.splits)
  from save_loop_frame [OF assms(1) l] r show ?thesis by simp
qed

lemma vodafone_save_jobs_bulk_frame:
  assumes "name \<notin> set vf_keys" and "name \<noteq> ''title''"
    and "vodafone_save_jobs_bulk items now rows = (n, rows')"
  shows "map (\<lambda>j. getattr j name) (take (length rows) rows') = map (\<lambda>j. getattr j name) rows"
proof -
  from assms(3) obtain objs pending where
    l: "vf_save_loop items now rows (rows, [], 0) = (objs, pending, n)" and r: "rows' = objs @ pending"
    by (auto simp: vodafone_save_jobs_bulk_def split: prod.splits)
  from vf_save_loop_frame [OF assms(1,2) l] r show ?thesis by simp
qed

lemma map_Inr_eq:
  "map (\<lambda>j. (Inr (f j) :: error + pyval)) xs = map (\<lambda>j. Inr (f j)) ys \<Longrightarrow> map f xs = map f ys"
proof (induction xs arbitrary: ys)
  case Nil
  then show ?case by simp
next
  case (Cons x xs)
  from Cons.prems obtain y ys' where ys: "ys = y # ys'" by (cases ys) auto
  from Cons.prems ys have hd: "f x = f y"
    and tl: "map (\<lambda>j. (Inr (f j) :: error + pyval)) xs = map (\<lambda>j. Inr (f j)) ys'" by simp_all
  from Cons.IH [OF tl] hd ys show ?case by simp
qed

lemma map_getattr_ts:
  "map (\<lambda>j. getattr j ''created_at'') xs = map (\<lambda>j. getattr j ''created_at'') ys
     \<Longrightarrow> map created_at xs = map created_at ys"
  "map (\<lambda>j. getattr j ''updated_at'') xs = map (\<lambda>j. getattr j ''updated_at'') ys
     \<Longrightarrow> map updated_at xs = map updated_at ys"
  using map_Inr_eq [of created_at xs ys] map_Inr_eq [of updated_at xs ys]
  by (simp_all add: getattr_fields)

end
